theory Spec2Isabelle
  imports Complex_Main
begin

section \<open>Documents\<close>

text \<open>
  The script \<^verbatim>\<open>init_schema.js\<close> hands three \<^verbatim>\<open>$jsonSchema\<close> validators and six index
  specifications to a database handle. Documents are BSON values. The constructors
  below are the BSON types the validators name, the other numeric types, and one
  constructor for the remaining types, whose payload no validator of the script inspects.
  A 32-bit \<^verbatim>\<open>int\<close> and a 64-bit \<^verbatim>\<open>long\<close> carry their value as an integer; a \<^verbatim>\<open>double\<close>
  carries a real number (NaN and the infinities are left out).
\<close>

datatype other_type = BinData | Undefined | Regex | DbPointer | Javascript | Symbol
  | JavascriptWithScope | Timestamp | MinKey | MaxKey

datatype bson =
    BDouble real
  | BString string
  | BObject "(string \<times> bson) list"
  | BArray "bson list"
  | BObjectId string
  | BBool bool
  | BDate int
  | BNull
  | BInt int
  | BLong int
  | BDecimal real
  | BOther other_type

type_synonym document = "(string \<times> bson) list"

fun other_alias :: "other_type \<Rightarrow> string" where
  "other_alias BinData = ''binData''"
| "other_alias Undefined = ''undefined''"
| "other_alias Regex = ''regex''"
| "other_alias DbPointer = ''dbPointer''"
| "other_alias Javascript = ''javascript''"
| "other_alias Symbol = ''symbol''"
| "other_alias JavascriptWithScope = ''javascriptWithScope''"
| "other_alias Timestamp = ''timestamp''"
| "other_alias MinKey = ''minKey''"
| "other_alias MaxKey = ''maxKey''"

text \<open>The string alias of a value's BSON type, as \<^verbatim>\<open>bsonType\<close> names it.\<close>

fun bson_type :: "bson \<Rightarrow> string" where
  "bson_type (BDouble x) = ''double''"
| "bson_type (BString s) = ''string''"
| "bson_type (BObject d) = ''object''"
| "bson_type (BArray xs) = ''array''"
| "bson_type (BObjectId i) = ''objectId''"
| "bson_type (BBool b) = ''bool''"
| "bson_type (BDate t) = ''date''"
| "bson_type BNull = ''null''"
| "bson_type (BInt i) = ''int''"
| "bson_type (BLong i) = ''long''"
| "bson_type (BDecimal x) = ''decimal''"
| "bson_type (BOther t) = other_alias t"

fun numeric :: "bson \<Rightarrow> real option" where
  "numeric (BInt i) = Some (of_int i)"
| "numeric (BLong i) = Some (of_int i)"
| "numeric (BDouble x) = Some x"
| "numeric (BDecimal x) = Some x"
| "numeric v = None"

text \<open>
  The value a document holds under a top-level field name; an index treats a missing
  field as \<^verbatim>\<open>null\<close>.
\<close>

definition field_value :: "document \<Rightarrow> string \<Rightarrow> bson" where
  "field_value d f = (case map_of d f of None \<Rightarrow> BNull | Some v \<Rightarrow> v)"

section \<open>Regular expressions of the \<^verbatim>\<open>pattern\<close> keyword\<close>

text \<open>
  The one pattern of the script, \<^verbatim>\<open>^.+@.+\..+$\<close>, is a sequence of anchors, single
  characters and \<^verbatim>\<open>+\<close>-repetitions of single characters. The database matches patterns with
  a Perl-compatible engine and no option set: \<^verbatim>\<open>.\<close> matches every character but the line
  feed, \<^verbatim>\<open>^\<close> holds at the start of the subject only, \<^verbatim>\<open>$\<close> holds at its end and before a
  line feed that ends it. The \<^verbatim>\<open>pattern\<close> keyword asks for a match somewhere in the
  string, not for a match of the whole string.
\<close>

datatype cclass = AnyChar | Chr char

datatype rnode = Bol | Eol | One cclass | Plus cclass

fun in_class :: "cclass \<Rightarrow> char \<Rightarrow> bool" where
  "in_class AnyChar c = (c \<noteq> CHR 0x0A)"
| "in_class (Chr x) c = (c = x)"

text \<open>
  \<open>rmatch r at_start s\<close>: the nodes \<open>r\<close> match a prefix of \<open>s\<close>, where \<open>at_start\<close>
  tells whether \<open>s\<close> is the whole subject.
\<close>

fun rmatch :: "rnode list \<Rightarrow> bool \<Rightarrow> string \<Rightarrow> bool" where
  "rmatch [] at_start s = True"
| "rmatch (Bol # r) at_start s = (at_start \<and> rmatch r at_start s)"
| "rmatch (Eol # r) at_start s = ((s = [] \<or> s = [CHR 0x0A]) \<and> rmatch r at_start s)"
| "rmatch (One cl # r) at_start [] = False"
| "rmatch (One cl # r) at_start (c # cs) = (in_class cl c \<and> rmatch r False cs)"
| "rmatch (Plus cl # r) at_start [] = False"
| "rmatch (Plus cl # r) at_start (c # cs) =
     (in_class cl c \<and> (rmatch (Plus cl # r) False cs \<or> rmatch r False cs))"

fun rsearch_from :: "rnode list \<Rightarrow> bool \<Rightarrow> string \<Rightarrow> bool" where
  "rsearch_from r at_start [] = rmatch r at_start []"
| "rsearch_from r at_start (c # cs) =
     (rmatch r at_start (c # cs) \<or> rsearch_from r False cs)"

definition regex_search :: "rnode list \<Rightarrow> string \<Rightarrow> bool" where
  "regex_search r s = rsearch_from r True s"

section \<open>Validators\<close>

text \<open>
  A schema is the list of its keywords, in the order the object literal of the script
  writes them. The keywords have the meaning the database gives to \<^verbatim>\<open>$jsonSchema\<close>
  (JSON Schema, draft 4, with \<^verbatim>\<open>bsonType\<close>): each keyword constrains the values of the
  type it is about and accepts every other value; \<^verbatim>\<open>description\<close> constrains nothing;
  \<^verbatim>\<open>properties\<close> constrains the fields that are present and \<^verbatim>\<open>required\<close> asks for
  presence. A schema accepts a value when each of its keywords does. No schema of the
  script has \<^verbatim>\<open>additionalProperties\<close>. The empty \<^verbatim>\<open>required\<close> of \<^verbatim>\<open>profile\<close> is read as
  it stands: it asks for no field. Whether a server takes an empty \<^verbatim>\<open>required\<close> when the
  collection is created is a matter of the handle, which the initializer gets as a
  parameter.
\<close>

datatype keyword =
    BsonType "string list"
  | Description string
  | Required "string list"
  | Properties "(string \<times> keyword list) list"
  | Pattern "rnode list"
  | MinItems nat
  | MaxItems nat
  | Items "keyword list"
  | Enum "bson list"
  | Minimum real
  | Maximum real

type_synonym json_schema = "keyword list"

definition type_matches :: "bson \<Rightarrow> string \<Rightarrow> bool" where
  "type_matches v t = (t = bson_type v \<or> (t = ''number'' \<and> numeric v \<noteq> None))"

fun valid_kw :: "keyword \<Rightarrow> bson \<Rightarrow> bool" where
  "valid_kw (BsonType ts) v = list_ex (type_matches v) ts"
| "valid_kw (Description t) v = True"
| "valid_kw (Required rs) v =
     (case v of BObject d \<Rightarrow> list_all (\<lambda>r. map_of d r \<noteq> None) rs | _ \<Rightarrow> True)"
| "valid_kw (Properties ps) v =
     (case v of
        BObject d \<Rightarrow>
          list_all (\<lambda>(n, S). case map_of d n of None \<Rightarrow> True
                                | Some x \<Rightarrow> list_all (\<lambda>k. valid_kw k x) S) ps
      | _ \<Rightarrow> True)"
| "valid_kw (Pattern r) v = (case v of BString s \<Rightarrow> regex_search r s | _ \<Rightarrow> True)"
| "valid_kw (MinItems n) v = (case v of BArray xs \<Rightarrow> n \<le> length xs | _ \<Rightarrow> True)"
| "valid_kw (MaxItems n) v = (case v of BArray xs \<Rightarrow> length xs \<le> n | _ \<Rightarrow> True)"
| "valid_kw (Items S) v =
     (case v of BArray xs \<Rightarrow> list_all (\<lambda>x. list_all (\<lambda>k. valid_kw k x) S) xs
      | _ \<Rightarrow> True)"
| "valid_kw (Enum vs) v = (v \<in> set vs)"
| "valid_kw (Minimum m) v = (case numeric v of Some x \<Rightarrow> m \<le> x | None \<Rightarrow> True)"
| "valid_kw (Maximum m) v = (case numeric v of Some x \<Rightarrow> x \<le> m | None \<Rightarrow> True)"

definition valid :: "json_schema \<Rightarrow> bson \<Rightarrow> bool" where
  "valid S v = list_all (\<lambda>k. valid_kw k v) S"

subsection \<open>The three validators of the script\<close>

text \<open>The argument of \<^verbatim>\<open>$jsonSchema\<close> in the call that creates \<^verbatim>\<open>users\<close> (lines 18 to 36).\<close>

definition users_validator :: json_schema where
  "users_validator =
    [BsonType [''object''],
     Required [''username'', ''email'', ''password_hash'', ''created_at''],
     Properties
      [(''username'', [BsonType [''string''], Description ''Unique user handle'']),
       (''email'', [BsonType [''string''], Description ''User email'',
                    Pattern [Bol, Plus AnyChar, One (Chr CHR ''@''), Plus AnyChar,
                             One (Chr CHR ''.''), Plus AnyChar, Eol]]),
       (''password_hash'', [BsonType [''string''], Description ''Password hash'']),
       (''profile'',
          [BsonType [''object''],
           Description ''Profile info'',
           Properties
            [(''avatar'', [BsonType [''string'', ''null''], Description ''URL to avatar''])],
           Required []]),
       (''created_at'', [BsonType [''date''], Description ''Account creation timestamp'']),
       (''last_login'', [BsonType [''date'', ''null''], Description ''Last login timestamp''])]]"

text \<open>The argument of \<^verbatim>\<open>$jsonSchema\<close> in the call that creates \<^verbatim>\<open>games\<close> (lines 45 to 84).\<close>

definition games_validator :: json_schema where
  "games_validator =
    [BsonType [''object''],
     Required [''players'', ''moves'', ''status'', ''created_at''],
     Properties
      [(''players'',
          [BsonType [''array''],
           Description ''Array of two player IDs'',
           MinItems 2, MaxItems 2,
           Items [BsonType [''objectId'']]]),
       (''moves'',
          [BsonType [''array''],
           Description ''Moves with player and position'',
           Items
            [BsonType [''object''],
             Required [''player'', ''position'', ''timestamp''],
             Properties
              [(''player'', [BsonType [''objectId''], Description ''User ID'']),
               (''position'',
                  [BsonType [''object''],
                   Required [''row'', ''col''],
                   Properties
                    [(''row'', [BsonType [''int''], Minimum 0, Maximum 2]),
                     (''col'', [BsonType [''int''], Minimum 0, Maximum 2])]]),
               (''timestamp'', [BsonType [''date'']])]]]),
       (''status'',
          [BsonType [''string''],
           Enum [BString ''ongoing'', BString ''win'', BString ''draw'', BString ''abandoned''],
           Description ''Game status'']),
       (''winner'', [BsonType [''objectId'', ''null''], Description ''Winner ID or null'']),
       (''created_at'', [BsonType [''date'']]),
       (''completed_at'', [BsonType [''date'', ''null'']])]]"

text \<open>
  The argument of \<^verbatim>\<open>$jsonSchema\<close> in the call that creates \<^verbatim>\<open>leaderboards\<close>
  (lines 93 to 105).
\<close>

definition leaderboards_validator :: json_schema where
  "leaderboards_validator =
    [BsonType [''object''],
     Required [''user_id'', ''games_played'', ''games_won'', ''games_drawn'', ''games_lost'',
               ''win_rate'', ''ranking''],
     Properties
      [(''user_id'', [BsonType [''objectId''], Description ''Reference to user'']),
       (''games_played'', [BsonType [''int''], Minimum 0]),
       (''games_won'', [BsonType [''int''], Minimum 0]),
       (''games_drawn'', [BsonType [''int''], Minimum 0]),
       (''games_lost'', [BsonType [''int''], Minimum 0]),
       (''win_rate'', [BsonType [''double''], Minimum 0, Maximum 1]),
       (''ranking'', [BsonType [''int''], Minimum 1])]]"

text \<open>
  The field names a schema mentions at its top level, in \<^verbatim>\<open>required\<close> or as a key of
  \<^verbatim>\<open>properties\<close>.
\<close>

fun kw_names :: "keyword \<Rightarrow> string list" where
  "kw_names (Required rs) = rs"
| "kw_names (Properties ps) = map fst ps"
| "kw_names k = []"

definition named_fields :: "json_schema \<Rightarrow> string list" where
  "named_fields S = concat (map kw_names S)"

section \<open>The initializer\<close>

text \<open>
  \<^verbatim>\<open>initializeSchema(db)\<close> is a straight line of nine awaited calls on the handle it is
  given, followed by \<^verbatim>\<open>print\<close>. A call is either
  \<^verbatim>\<open>db.createCollection(name, { validator: { $jsonSchema: S } })\<close> or
  \<^verbatim>\<open>db.collection(name).createIndex(keys, options)\<close>, where the options are
  \<^verbatim>\<open>{ unique: true }\<close> or absent (not unique).
\<close>

datatype step =
    CreateCollection string json_schema
  | CreateIndex string "(string \<times> int) list" bool

definition schema_steps :: "step list" where
  "schema_steps =
    [CreateCollection ''users'' users_validator,
     CreateIndex ''users'' [(''username'', 1)] True,
     CreateIndex ''users'' [(''email'', 1)] True,
     CreateCollection ''games'' games_validator,
     CreateIndex ''games'' [(''players'', 1)] False,
     CreateIndex ''games'' [(''status'', 1), (''created_at'', - 1)] False,
     CreateCollection ''leaderboards'' leaderboards_validator,
     CreateIndex ''leaderboards'' [(''ranking'', 1)] True,
     CreateIndex ''leaderboards'' [(''user_id'', 1)] True]"

text \<open>
  The handle is the parameter of the function: whatever object the caller passes. Its
  two operations act on a database state of type \<open>'s\<close> and either reject with an error
  of type \<open>'e\<close>, leaving the state as it was, or resolve with the new state.
\<close>

record ('s, 'e) db_handle =
  createCollection :: "string \<Rightarrow> json_schema \<Rightarrow> 's \<Rightarrow> 'e + 's"
  createIndex :: "string \<Rightarrow> (string \<times> int) list \<Rightarrow> bool \<Rightarrow> 's \<Rightarrow> 'e + 's"

fun exec_step :: "('s, 'e) db_handle \<Rightarrow> step \<Rightarrow> 's \<Rightarrow> 'e + 's" where
  "exec_step h (CreateCollection n S) s = createCollection h n S s"
| "exec_step h (CreateIndex n ks u) s = createIndex h n ks u s"

text \<open>
  Each call is awaited and none is inside \<^verbatim>\<open>try\<close>: a rejected call ends the function
  there. The result is the state reached, the calls issued, and the error if there
  was one.
\<close>

fun run_steps :: "('s, 'e) db_handle \<Rightarrow> step list \<Rightarrow> 's \<Rightarrow> 's \<times> step list \<times> 'e option" where
  "run_steps h [] s = (s, [], None)"
| "run_steps h (st # sts) s =
     (case exec_step h st s of
        Inl e \<Rightarrow> (s, [st], Some e)
      | Inr s' \<Rightarrow> (case run_steps h sts s' of (s'', tr, r) \<Rightarrow> (s'', st # tr, r)))"

record ('s, 'e) outcome =
  final :: 's
  calls :: "step list"
  rejected :: "'e option"
  printed :: "string list"

definition initializeSchema :: "('s, 'e) db_handle \<Rightarrow> 's \<Rightarrow> ('s, 'e) outcome" where
  "initializeSchema db s =
     (case run_steps db schema_steps s of
        (s', tr, None) \<Rightarrow>
          \<lparr>final = s', calls = tr, rejected = None,
           printed = [''Tic Tac Toe DB schema initialized successfully.'']\<rparr>
      | (s', tr, Some e) \<Rightarrow>
          \<lparr>final = s', calls = tr, rejected = Some e, printed = []\<rparr>)"

text \<open>
  The top level of the file (lines 114 to 117): the function is called when the global
  \<^verbatim>\<open>db\<close> is defined, and nothing else happens. \<open>None\<close> is a global that is undefined.
\<close>

definition script :: "('s, 'e) db_handle option \<Rightarrow> 's \<Rightarrow> ('s, 'e) outcome" where
  "script db s =
     (case db of
        None \<Rightarrow> \<lparr>final = s, calls = [], rejected = None, printed = []\<rparr>
      | Some h \<Rightarrow> initializeSchema h s)"

section \<open>A database with create-if-absent semantics\<close>

record index_spec =
  ix_keys :: "(string \<times> int) list"
  ix_unique :: bool

record collection =
  coll_validator :: "json_schema option"
  coll_indexes :: "index_spec list"
  coll_documents :: "document list"

type_synonym database = "string \<rightharpoonup> collection"

datatype db_error =
    NamespaceExists string
  | IndexOptionsConflict string
  | DuplicateKey string
  | DocumentValidationFailure string

definition index_key :: "(string \<times> int) list \<Rightarrow> document \<Rightarrow> bson list" where
  "index_key ks d = map (\<lambda>(f, dir). field_value d f) ks"

text \<open>
  Modelled from the spec: the database behind the handle is not part of the
  repository. Creating a collection is "create if not exists": an absent collection is
  created empty with the validator, a collection that exists with the same validator
  is left as it is, and one that exists with another validator is an error
  (section 4.1, and class (b) of section 7).
\<close>

definition mongo_createCollection :: "string \<Rightarrow> json_schema \<Rightarrow> database \<Rightarrow> db_error + database" where
  "mongo_createCollection n S db =
     (case db n of
        None \<Rightarrow>
          Inr (db(n \<mapsto> \<lparr>coll_validator = Some S, coll_indexes = [], coll_documents = []\<rparr>))
      | Some c \<Rightarrow> if coll_validator c = Some S then Inr db else Inl (NamespaceExists n))"

text \<open>
  Modelled from the spec: creating an index that exists with the same keys and options
  changes nothing; the same keys with other options are a conflict; a unique index
  over documents that already share a key is an error (class (c) of section 7);
  otherwise the index is added. The spec does not say what happens on a collection
  that does not exist; here it is created without validator, as the database does.
\<close>

definition mongo_createIndex ::
  "string \<Rightarrow> (string \<times> int) list \<Rightarrow> bool \<Rightarrow> database \<Rightarrow> db_error + database" where
  "mongo_createIndex n ks u db =
     (let c = (case db n of
                 None \<Rightarrow> \<lparr>coll_validator = None, coll_indexes = [], coll_documents = []\<rparr>
               | Some c \<Rightarrow> c)
      in if \<lparr>ix_keys = ks, ix_unique = u\<rparr> \<in> set (coll_indexes c) then Inr db
         else if ks \<in> set (map ix_keys (coll_indexes c)) then Inl (IndexOptionsConflict n)
         else if u \<and> \<not> distinct (map (index_key ks) (coll_documents c))
           then Inl (DuplicateKey n)
         else Inr (db(n \<mapsto> c\<lparr>coll_indexes := coll_indexes c @ [\<lparr>ix_keys = ks, ix_unique = u\<rparr>]\<rparr>)))"

definition mongo :: "(database, db_error) db_handle" where
  "mongo = \<lparr>createCollection = mongo_createCollection, createIndex = mongo_createIndex\<rparr>"

text \<open>
  Modelled from the spec: an insert is rejected when the validator of the collection
  does not accept the document, and when a unique index of the collection finds its
  key among the stored documents (glossary: validator, unique index). Otherwise the
  document is stored.
\<close>

definition key_taken :: "document list \<Rightarrow> document \<Rightarrow> index_spec \<Rightarrow> bool" where
  "key_taken ds d ix =
     (ix_unique ix \<and> index_key (ix_keys ix) d \<in> set (map (index_key (ix_keys ix)) ds))"

definition mongo_insert :: "string \<Rightarrow> document \<Rightarrow> database \<Rightarrow> db_error + database" where
  "mongo_insert n d db =
     (case db n of
        None \<Rightarrow>
          Inr (db(n \<mapsto> \<lparr>coll_validator = None, coll_indexes = [], coll_documents = [d]\<rparr>))
      | Some c \<Rightarrow>
          if \<not> (case coll_validator c of None \<Rightarrow> True | Some S \<Rightarrow> valid S (BObject d))
            then Inl (DocumentValidationFailure n)
          else if list_ex (key_taken (coll_documents c) d) (coll_indexes c)
            then Inl (DuplicateKey n)
          else Inr (db(n \<mapsto> c\<lparr>coll_documents := coll_documents c @ [d]\<rparr>)))"

text \<open>A sequence of insert attempts; a rejected insert leaves the database as it was.\<close>

fun insert_all :: "(string \<times> document) list \<Rightarrow> database \<Rightarrow> database" where
  "insert_all [] db = db"
| "insert_all ((n, d) # xs) db =
     insert_all xs (case mongo_insert n d db of Inl e \<Rightarrow> db | Inr db' \<Rightarrow> db')"

section \<open>Observations on calls and database states\<close>

text \<open>
  The collection a call is about, whether it creates an index, and whether that index
  is unique.
\<close>

fun step_target :: "step \<Rightarrow> string" where
  "step_target (CreateCollection n S) = n"
| "step_target (CreateIndex n ks u) = n"

fun is_index :: "step \<Rightarrow> bool" where
  "is_index (CreateCollection n S) = False"
| "is_index (CreateIndex n ks u) = True"

fun is_unique_index :: "step \<Rightarrow> bool" where
  "is_unique_index (CreateCollection n S) = False"
| "is_unique_index (CreateIndex n ks u) = u"

text \<open>
  A call is satisfied in a database state when what it asks for is there: the
  collection with that validator, or that index on the collection.
\<close>

fun satisfied :: "step \<Rightarrow> database \<Rightarrow> bool" where
  "satisfied (CreateCollection n S) db =
     (case db n of None \<Rightarrow> False | Some c \<Rightarrow> coll_validator c = Some S)"
| "satisfied (CreateIndex n ks u) db =
     (case db n of None \<Rightarrow> False
      | Some c \<Rightarrow> \<lparr>ix_keys = ks, ix_unique = u\<rparr> \<in> set (coll_indexes c))"

text \<open>
  The state in which the three collections exist, empty, with the validators and the
  indexes of the script.
\<close>

definition initialized_db :: database where
  "initialized_db =
    [''users'' \<mapsto> \<lparr>coll_validator = Some users_validator,
         coll_indexes = [\<lparr>ix_keys = [(''username'', 1)], ix_unique = True\<rparr>,
                         \<lparr>ix_keys = [(''email'', 1)], ix_unique = True\<rparr>],
         coll_documents = []\<rparr>,
     ''games'' \<mapsto> \<lparr>coll_validator = Some games_validator,
         coll_indexes = [\<lparr>ix_keys = [(''players'', 1)], ix_unique = False\<rparr>,
                         \<lparr>ix_keys = [(''status'', 1), (''created_at'', - 1)],
                          ix_unique = False\<rparr>],
         coll_documents = []\<rparr>,
     ''leaderboards'' \<mapsto> \<lparr>coll_validator = Some leaderboards_validator,
         coll_indexes = [\<lparr>ix_keys = [(''ranking'', 1)], ix_unique = True\<rparr>,
                         \<lparr>ix_keys = [(''user_id'', 1)], ix_unique = True\<rparr>],
         coll_documents = []\<rparr>]"

text \<open>
  The collections and fields that carry a unique index, and what the index is there
  for: the stored documents of collection \<open>n\<close> differ pairwise in field \<open>f\<close>;
  a document \<open>d\<close> holds in \<open>f\<close> a value that a stored document of \<open>n\<close> holds.
\<close>

definition unique_fields :: "(string \<times> string) list" where
  "unique_fields = [(''users'', ''username''), (''users'', ''email''),
                    (''leaderboards'', ''ranking''), (''leaderboards'', ''user_id'')]"

definition values_differ :: "database \<Rightarrow> string \<Rightarrow> string \<Rightarrow> bool" where
  "values_differ db n f =
     (case db n of None \<Rightarrow> False
      | Some c \<Rightarrow> distinct (map (\<lambda>d. field_value d f) (coll_documents c)))"

definition value_stored :: "database \<Rightarrow> string \<Rightarrow> string \<Rightarrow> document \<Rightarrow> bool" where
  "value_stored db n f d =
     (case db n of None \<Rightarrow> False
      | Some c \<Rightarrow> field_value d f \<in> set (map (\<lambda>d'. field_value d' f) (coll_documents c)))"

text \<open>
  One insert attempt: the state after it, which is the state before it when the insert
  is rejected.
\<close>

definition attempt :: "string \<Rightarrow> document \<Rightarrow> database \<Rightarrow> database" where
  "attempt n d db = (case mongo_insert n d db of Inl e \<Rightarrow> db | Inr db' \<Rightarrow> db')"

section \<open>The shape of an accepted e-mail address\<close>

text \<open>
  A run of one or more characters other than the line feed, which is what \<^verbatim>\<open>.+\<close>
  matches.
\<close>

definition line_part :: "string \<Rightarrow> bool" where
  "line_part a = (a \<noteq> [] \<and> CHR 0x0A \<notin> set a)"

text \<open>
  The strings \<open>a@b.c\<close> with \<open>a\<close>, \<open>b\<close>, \<open>c\<close> such runs, with or without one
  line feed at the very end.
\<close>

definition pcre_email_shape :: "string \<Rightarrow> bool" where
  "pcre_email_shape s =
     (\<exists>a b c e. line_part a \<and> line_part b \<and> line_part c \<and> (e = [] \<or> e = [CHR 0x0A])
        \<and> s = a @ ''@'' @ b @ ''.'' @ c @ e)"

text \<open>
  The shape in the words of the specification: at least one character, then \<open>@\<close>,
  then a domain that contains a dot with characters on both sides.
\<close>

definition spec_email_shape :: "string \<Rightarrow> bool" where
  "spec_email_shape s =
     (\<exists>a b c. a \<noteq> [] \<and> b \<noteq> [] \<and> c \<noteq> [] \<and> s = a @ ''@'' @ b @ ''.'' @ c)"

section \<open>Example states and documents\<close>

text \<open>
  A database in which \<^verbatim>\<open>games\<close> already exists without a validator, and the state the
  initializer reaches in it before its fourth call.
\<close>

definition stale_games :: database where
  "stale_games =
     [''games'' \<mapsto> \<lparr>coll_validator = None, coll_indexes = [], coll_documents = []\<rparr>]"

definition stale_games_partial :: database where
  "stale_games_partial =
     stale_games(''users'' \<mapsto> \<lparr>coll_validator = Some users_validator,
         coll_indexes = [\<lparr>ix_keys = [(''username'', 1)], ix_unique = True\<rparr>,
                         \<lparr>ix_keys = [(''email'', 1)], ix_unique = True\<rparr>],
         coll_documents = []\<rparr>)"

text \<open>
  The user of the end-to-end scenario of the specification; a second user with the
  same address; a second user with the same name.
\<close>

definition alice :: document where
  "alice = [(''username'', BString ''alice''), (''email'', BString ''a@b.com''),
            (''password_hash'', BString ''h''), (''created_at'', BDate 0)]"

definition bob_same_email :: document where
  "bob_same_email = [(''username'', BString ''bob''), (''email'', BString ''a@b.com''),
            (''password_hash'', BString ''k''), (''created_at'', BDate 5)]"

definition alice_again :: document where
  "alice_again = [(''username'', BString ''alice''), (''email'', BString ''other@b.com''),
            (''password_hash'', BString ''z''), (''created_at'', BDate 9)]"

text \<open>
  A game with one move; the same game with three players; the same game with a move in
  row 3.
\<close>

definition game1 :: document where
  "game1 =
     [(''players'', BArray [BObjectId ''a1'', BObjectId ''b2'']),
      (''moves'', BArray [BObject [(''player'', BObjectId ''a1''),
                                   (''position'', BObject [(''row'', BInt 0), (''col'', BInt 2)]),
                                   (''timestamp'', BDate 1)]]),
      (''status'', BString ''ongoing''),
      (''created_at'', BDate 0)]"

definition game_three_players :: document where
  "game_three_players =
     [(''players'', BArray [BObjectId ''a1'', BObjectId ''b2'', BObjectId ''c3'']),
      (''moves'', BArray []),
      (''status'', BString ''ongoing''),
      (''created_at'', BDate 0)]"

definition game_row_three :: document where
  "game_row_three =
     [(''players'', BArray [BObjectId ''a1'', BObjectId ''b2'']),
      (''moves'', BArray [BObject [(''player'', BObjectId ''a1''),
                                   (''position'', BObject [(''row'', BInt 3), (''col'', BInt 0)]),
                                   (''timestamp'', BDate 1)]]),
      (''status'', BString ''ongoing''),
      (''created_at'', BDate 0)]"

text \<open>
  A leaderboard entry, and the same entry with the win rate stored as a 32-bit integer.
\<close>

definition entry1 :: document where
  "entry1 =
     [(''user_id'', BObjectId ''a1''), (''games_played'', BInt 1), (''games_won'', BInt 1),
      (''games_drawn'', BInt 0), (''games_lost'', BInt 0), (''win_rate'', BDouble 1),
      (''ranking'', BInt 1)]"

definition entry_int_rate :: document where
  "entry_int_rate =
     [(''user_id'', BObjectId ''a1''), (''games_played'', BInt 1), (''games_won'', BInt 1),
      (''games_drawn'', BInt 0), (''games_lost'', BInt 0), (''win_rate'', BInt 1),
      (''ranking'', BInt 1)]"

text \<open>
  The first user with other values in the \<^verbatim>\<open>email\<close> field: another address, a string
  without \<open>@\<close>, an integer, and an address with a line feed in its local part.
\<close>

definition with_email :: "bson \<Rightarrow> document" where
  "with_email v = [(''username'', BString ''alice''), (''email'', v),
                   (''password_hash'', BString ''h''), (''created_at'', BDate 0)]"

section \<open>Running the steps\<close>

lemma run_steps_append:
  "run_steps h (xs @ ys) s =
     (case run_steps h xs s of
        (s', tr, None) \<Rightarrow> (case run_steps h ys s' of (s'', tr', r) \<Rightarrow> (s'', tr @ tr', r))
      | (s', tr, Some e) \<Rightarrow> (s', tr, Some e))"
  by (induction xs arbitrary: s) (auto split: sum.splits prod.splits option.splits)

lemma run_steps_success_calls:
  "run_steps h xs s = (s', tr, None) \<Longrightarrow> tr = xs"
  by (induction xs arbitrary: s s' tr) (auto split: sum.splits prod.splits option.splits)

lemma run_steps_stop:
  assumes k: "k < length xs"
    and pre: "run_steps h (take k xs) s = (s_k, tr, None)"
    and fail: "exec_step h (xs ! k) s_k = Inl e"
  shows "run_steps h xs s = (s_k, take (Suc k) xs, Some e)"
proof -
  have tr: "tr = take k xs" using pre by (rule run_steps_success_calls)
  have split: "xs = take k xs @ (xs ! k) # drop (Suc k) xs"
    using k by (rule id_take_nth_drop)
  have "run_steps h (take k xs @ (xs ! k) # drop (Suc k) xs) s
          = (s_k, take k xs @ [xs ! k], Some e)"
    unfolding run_steps_append using pre fail tr by simp
  moreover have "take k xs @ [xs ! k] = take (Suc k) xs"
    using k by (simp add: take_Suc_conv_app_nth)
  ultimately show ?thesis using split by simp
qed

text \<open>
  C2. Whatever the handle does: when the first \<open>k\<close> calls of the sequence resolve and
  reach the state \<open>s_k\<close>, and call number \<open>k\<close> (counting from 0) rejects there with
  \<open>e\<close>, then the function ends in \<open>s_k\<close>, so that what the earlier calls did stays done;
  it has issued the calls up to the rejected one and none after it; it prints nothing;
  and its own result is the rejection \<open>e\<close>, which nothing in the function catches.
\<close>

theorem initializeSchema_stops_at_failure:
  assumes "k < length schema_steps"
    and "run_steps h (take k schema_steps) s = (s_k, tr, None)"
    and "exec_step h (schema_steps ! k) s_k = Inl e"
  shows "initializeSchema h s =
           \<lparr>final = s_k, calls = take (Suc k) schema_steps, rejected = Some e, printed = []\<rparr>"
  using run_steps_stop [OF assms] by (simp add: initializeSchema_def)

theorem initializeSchema_stops_at_failure_witness:
  "3 < length schema_steps
   \<and> run_steps mongo (take 3 schema_steps) stale_games
       = (stale_games_partial, take 3 schema_steps, None)
   \<and> exec_step mongo (schema_steps ! 3) stale_games_partial = Inl (NamespaceExists ''games'')
   \<and> initializeSchema mongo stale_games =
        \<lparr>final = stale_games_partial, calls = take (Suc 3) schema_steps,
         rejected = Some (NamespaceExists ''games''), printed = []\<rparr>
   \<and> stale_games_partial ''leaderboards'' = None"
proof -
  have k: "3 < length schema_steps" by (simp add: schema_steps_def)
  have pre: "run_steps mongo (take 3 schema_steps) stale_games
       = (stale_games_partial, take 3 schema_steps, None)"
    by (simp add: schema_steps_def mongo_def mongo_createCollection_def mongo_createIndex_def
        stale_games_def stale_games_partial_def)
  have fail: "exec_step mongo (schema_steps ! 3) stale_games_partial
       = Inl (NamespaceExists ''games'')"
    by (simp add: schema_steps_def mongo_def mongo_createCollection_def
        stale_games_def stale_games_partial_def)
  have none: "stale_games_partial ''leaderboards'' = None"
    by (simp add: stale_games_def stale_games_partial_def)
  show ?thesis
    using k pre fail none initializeSchema_stops_at_failure [OF k pre fail] by simp
qed

text \<open>
  C10. When the global \<^verbatim>\<open>db\<close> is undefined, evaluating the file issues no call, prints
  nothing and leaves the database state as it was.
\<close>

theorem script_without_db:
  "script None s = \<lparr>final = s, calls = [], rejected = None, printed = []\<rparr>"
  by (simp add: script_def)

lemma success_calls:
  assumes "rejected (initializeSchema h s) = None"
  shows "calls (initializeSchema h s) = schema_steps"
proof (cases "run_steps h schema_steps s")
  case (fields s' tr r)
  with assms have "r = None"
    by (cases r) (simp_all add: initializeSchema_def)
  with fields have "tr = schema_steps" by (simp add: run_steps_success_calls)
  with fields \<open>r = None\<close> show ?thesis by (simp add: initializeSchema_def)
qed

section \<open>What the pattern matches\<close>

lemma rmatch_plus_any:
  "rmatch (Plus AnyChar # r) b s \<longleftrightarrow> (\<exists>a t. line_part a \<and> s = a @ t \<and> rmatch r False t)"
proof (induction s arbitrary: b)
  case Nil
  then show ?case by (simp add: line_part_def)
next
  case (Cons c cs)
  show ?case
  proof
    assume "rmatch (Plus AnyChar # r) b (c # cs)"
    then have c: "c \<noteq> CHR 0x0A" and d: "rmatch (Plus AnyChar # r) False cs \<or> rmatch r False cs"
      by simp_all
    from d show "\<exists>a t. line_part a \<and> c # cs = a @ t \<and> rmatch r False t"
    proof
      assume "rmatch (Plus AnyChar # r) False cs"
      then obtain a t where "line_part a" "cs = a @ t" "rmatch r False t"
        using Cons.IH by blast
      then have "line_part (c # a) \<and> c # cs = (c # a) @ t \<and> rmatch r False t"
        using c by (simp add: line_part_def)
      then show ?thesis by blast
    next
      assume "rmatch r False cs"
      then have "line_part [c] \<and> c # cs = [c] @ cs \<and> rmatch r False cs"
        using c by (simp add: line_part_def)
      then show ?thesis by blast
    qed
  next
    assume "\<exists>a t. line_part a \<and> c # cs = a @ t \<and> rmatch r False t"
    then obtain a t where a: "line_part a" and eq: "c # cs = a @ t" and r: "rmatch r False t"
      by blast
    from a obtain a' where a': "a = c # a'" using eq by (cases a) (auto simp: line_part_def)
    then have cs: "cs = a' @ t" and c: "c \<noteq> CHR 0x0A" using eq a by (auto simp: line_part_def)
    show "rmatch (Plus AnyChar # r) b (c # cs)"
    proof (cases "a' = []")
      case True
      then show ?thesis using cs c r by simp
    next
      case False
      then have "line_part a'" using a a' by (simp add: line_part_def)
      then have "rmatch (Plus AnyChar # r) False cs" using Cons.IH cs r by blast
      then show ?thesis using c by simp
    qed
  qed
qed

lemma rmatch_one_chr:
  "rmatch (One (Chr x) # r) b s \<longleftrightarrow> (\<exists>t. s = x # t \<and> rmatch r False t)"
  by (cases s) auto

lemma rmatch_eol: "rmatch [Eol] b s \<longleftrightarrow> (s = [] \<or> s = [CHR 0x0A])"
  by simp

lemma rsearch_bol_False: "rsearch_from (Bol # r) False s = False"
  by (induction s) auto

lemma regex_search_bol: "regex_search (Bol # r) s = rmatch r True s"
  by (cases s) (auto simp: regex_search_def rsearch_bol_False)

lemma email_pattern_search:
  "regex_search [Bol, Plus AnyChar, One (Chr CHR ''@''), Plus AnyChar,
                 One (Chr CHR ''.''), Plus AnyChar, Eol] s \<longleftrightarrow> pcre_email_shape s"
proof
  assume "regex_search [Bol, Plus AnyChar, One (Chr CHR ''@''), Plus AnyChar,
                 One (Chr CHR ''.''), Plus AnyChar, Eol] s"
  then obtain a t1 where a: "line_part a" and s: "s = a @ t1"
    and m1: "rmatch [One (Chr CHR ''@''), Plus AnyChar, One (Chr CHR ''.''), Plus AnyChar, Eol] False t1"
    unfolding regex_search_bol rmatch_plus_any by blast
  from m1 obtain t2 where t1: "t1 = CHR ''@'' # t2"
    and m2: "rmatch [Plus AnyChar, One (Chr CHR ''.''), Plus AnyChar, Eol] False t2"
    unfolding rmatch_one_chr by blast
  from m2 obtain b t3 where b: "line_part b" and t2: "t2 = b @ t3"
    and m3: "rmatch [One (Chr CHR ''.''), Plus AnyChar, Eol] False t3"
    unfolding rmatch_plus_any by blast
  from m3 obtain t4 where t3: "t3 = CHR ''.'' # t4"
    and m4: "rmatch [Plus AnyChar, Eol] False t4"
    unfolding rmatch_one_chr by blast
  from m4 obtain c e where c: "line_part c" and t4: "t4 = c @ e"
    and m5: "rmatch [Eol] False e"
    unfolding rmatch_plus_any by blast
  from m5 have e: "e = [] \<or> e = [CHR 0x0A]" by simp
  have "s = a @ ''@'' @ b @ ''.'' @ c @ e"
    using s t1 t2 t3 t4 by simp
  then show "pcre_email_shape s"
    unfolding pcre_email_shape_def using a b c e by blast
next
  assume "pcre_email_shape s"
  then obtain a b c e where a: "line_part a" and b: "line_part b" and c: "line_part c"
    and e: "e = [] \<or> e = [CHR 0x0A]" and s: "s = a @ ''@'' @ b @ ''.'' @ c @ e"
    unfolding pcre_email_shape_def by blast
  have m5: "rmatch [Eol] False e" using e by auto
  have m4: "rmatch [Plus AnyChar, Eol] False (c @ e)"
    unfolding rmatch_plus_any using c m5 by blast
  have m3: "rmatch [One (Chr CHR ''.''), Plus AnyChar, Eol] False (CHR ''.'' # c @ e)"
    using m4 by simp
  have m2: "rmatch [Plus AnyChar, One (Chr CHR ''.''), Plus AnyChar, Eol] False
              (b @ CHR ''.'' # c @ e)"
    unfolding rmatch_plus_any [of "[One (Chr CHR ''.''), Plus AnyChar, Eol]"] using b m3 by blast
  have m1: "rmatch [One (Chr CHR ''@''), Plus AnyChar, One (Chr CHR ''.''), Plus AnyChar, Eol]
              False (CHR ''@'' # b @ CHR ''.'' # c @ e)"
    using m2 by simp
  have "rmatch [Plus AnyChar, One (Chr CHR ''@''), Plus AnyChar, One (Chr CHR ''.''),
                Plus AnyChar, Eol] True (a @ CHR ''@'' # b @ CHR ''.'' # c @ e)"
    unfolding rmatch_plus_any
      [of "[One (Chr CHR ''@''), Plus AnyChar, One (Chr CHR ''.''), Plus AnyChar, Eol]"]
    using a m1 by blast
  then show "regex_search [Bol, Plus AnyChar, One (Chr CHR ''@''), Plus AnyChar,
                 One (Chr CHR ''.''), Plus AnyChar, Eol] s"
    unfolding regex_search_bol using s by simp
qed

section \<open>What the validators accept\<close>

subsection \<open>Types and keywords\<close>

lemma other_alias_neq:
  "other_alias t \<noteq> ''string''" "other_alias t \<noteq> ''object''" "other_alias t \<noteq> ''array''"
  "other_alias t \<noteq> ''objectId''" "other_alias t \<noteq> ''date''" "other_alias t \<noteq> ''null''"
  "other_alias t \<noteq> ''int''" "other_alias t \<noteq> ''double''"
  by (cases t; simp)+

lemma type_string: "type_matches v ''string'' \<longleftrightarrow> (\<exists>s. v = BString s)"
  by (cases v) (simp_all add: type_matches_def other_alias_neq [symmetric])

lemma type_object: "type_matches v ''object'' \<longleftrightarrow> (\<exists>d. v = BObject d)"
  by (cases v) (simp_all add: type_matches_def other_alias_neq [symmetric])

lemma type_array: "type_matches v ''array'' \<longleftrightarrow> (\<exists>xs. v = BArray xs)"
  by (cases v) (simp_all add: type_matches_def other_alias_neq [symmetric])

lemma type_objectId: "type_matches v ''objectId'' \<longleftrightarrow> (\<exists>i. v = BObjectId i)"
  by (cases v) (simp_all add: type_matches_def other_alias_neq [symmetric])

lemma type_date: "type_matches v ''date'' \<longleftrightarrow> (\<exists>t. v = BDate t)"
  by (cases v) (simp_all add: type_matches_def other_alias_neq [symmetric])

lemma type_null: "type_matches v ''null'' \<longleftrightarrow> v = BNull"
  by (cases v) (simp_all add: type_matches_def other_alias_neq [symmetric])

lemma type_int: "type_matches v ''int'' \<longleftrightarrow> (\<exists>i. v = BInt i)"
  by (cases v) (simp_all add: type_matches_def other_alias_neq [symmetric])

lemma type_double: "type_matches v ''double'' \<longleftrightarrow> (\<exists>x. v = BDouble x)"
  by (cases v) (simp_all add: type_matches_def other_alias_neq [symmetric])

lemmas type_simps = type_string type_object type_array type_objectId type_date type_null
  type_int type_double

lemma valid_Nil: "valid [] v"
  by (simp add: valid_def)

lemma valid_Cons: "valid (k # S) v \<longleftrightarrow> valid_kw k v \<and> valid S v"
  by (simp add: valid_def)

lemma kw_type: "valid_kw (BsonType ts) v \<longleftrightarrow> (\<exists>t \<in> set ts. type_matches v t)"
  by (simp add: list_ex_iff)

lemma kw_required: "valid_kw (Required rs) (BObject d) \<longleftrightarrow> (\<forall>r \<in> set rs. map_of d r \<noteq> None)"
  by (simp add: list_all_iff)

lemma kw_properties:
  "valid_kw (Properties ps) (BObject d)
     \<longleftrightarrow> (\<forall>(n, T) \<in> set ps. \<forall>x. map_of d n = Some x \<longrightarrow> valid T x)"
  by (auto simp: list_all_iff valid_def split: option.splits)

lemma kw_items: "valid_kw (Items T) (BArray xs) \<longleftrightarrow> (\<forall>x \<in> set xs. valid T x)"
  by (simp add: list_all_iff valid_def)

lemmas kw_simps = valid_Nil valid_Cons kw_type kw_required kw_properties kw_items type_simps

lemmas eval_defs = valid_def type_matches_def regex_search_def

subsection \<open>The e-mail address of a user\<close>

lemma users_valid_cong:
  assumes "map_of d' = map_of d"
  shows "valid users_validator (BObject d') = valid users_validator (BObject d)"
  by (simp add: valid_def users_validator_def type_matches_def assms)

text \<open>
  C3, as amended. A document that the \<^verbatim>\<open>users\<close> validator accepts has an \<^verbatim>\<open>email\<close>
  that is a string of the shape \<open>a@b.c\<close>, where \<open>a\<close>, \<open>b\<close> and \<open>c\<close> are non-empty and
  free of line feeds, possibly followed by one final line feed. Conversely, a document
  that differs from an accepted one in the \<^verbatim>\<open>email\<close> field only is accepted exactly
  when its \<^verbatim>\<open>email\<close> is a string of that shape.
\<close>

theorem users_email_constraint:
  assumes "valid users_validator (BObject d)"
  shows "(\<exists>s. map_of d ''email'' = Some (BString s) \<and> pcre_email_shape s)
       \<and> (\<forall>d' v. map_of d' = (map_of d)(''email'' \<mapsto> v)
              \<longrightarrow> (valid users_validator (BObject d')
                     \<longleftrightarrow> (\<exists>s. v = BString s \<and> pcre_email_shape s)))"
proof
  from assms obtain v where v: "map_of d ''email'' = Some v"
    and "valid [BsonType [''string''], Description ''User email'',
                    Pattern [Bol, Plus AnyChar, One (Chr CHR ''@''), Plus AnyChar,
                             One (Chr CHR ''.''), Plus AnyChar, Eol]] v"
    by (auto simp: users_validator_def kw_simps simp del: valid_kw.simps(1,3,4,8))
  then show "\<exists>s. map_of d ''email'' = Some (BString s) \<and> pcre_email_shape s"
    by (auto simp: kw_simps email_pattern_search simp del: valid_kw.simps(1,3,4,8))
next
  show "\<forall>d' v. map_of d' = (map_of d)(''email'' \<mapsto> v)
              \<longrightarrow> (valid users_validator (BObject d')
                     \<longleftrightarrow> (\<exists>s. v = BString s \<and> pcre_email_shape s))"
  proof (intro allI impI)
    fix d' v
    assume "map_of d' = (map_of d)(''email'' \<mapsto> v)"
    then have "map_of d' = map_of ((''email'', v) # d)" by simp
    then have "valid users_validator (BObject d')
            \<longleftrightarrow> valid users_validator (BObject ((''email'', v) # d))"
      by (rule users_valid_cong)
    also have "\<dots> \<longleftrightarrow> valid [BsonType [''string''], Description ''User email'',
                    Pattern [Bol, Plus AnyChar, One (Chr CHR ''@''), Plus AnyChar,
                             One (Chr CHR ''.''), Plus AnyChar, Eol]] v"
      using assms
      by (simp add: users_validator_def valid_Nil valid_Cons kw_required kw_properties
          kw_type type_object del: valid_kw.simps(1,3,4,8))
    also have "\<dots> \<longleftrightarrow> (\<exists>s. v = BString s \<and> pcre_email_shape s)"
      by (auto simp: kw_simps email_pattern_search simp del: valid_kw.simps(1,3,4,8))
    finally show "valid users_validator (BObject d')
                \<longleftrightarrow> (\<exists>s. v = BString s \<and> pcre_email_shape s)" .
  qed
qed

theorem users_email_constraint_witness:
  "valid users_validator (BObject alice)
   \<and> pcre_email_shape ''a@b.com''
   \<and> valid users_validator (BObject (with_email (BString ''bob@example.org'')))
   \<and> pcre_email_shape ''bob@example.org''
   \<and> \<not> valid users_validator (BObject (with_email (BString ''bob.example.org'')))
   \<and> \<not> pcre_email_shape ''bob.example.org''
   \<and> \<not> valid users_validator (BObject (with_email (BInt 7)))"
proof -
  have v: "valid users_validator (BObject alice)"
    by (simp add: eval_defs users_validator_def alice_def)
  have 1: "valid users_validator (BObject (with_email (BString ''bob@example.org'')))"
    by (simp add: eval_defs users_validator_def with_email_def)
  have 2: "\<not> valid users_validator (BObject (with_email (BString ''bob.example.org'')))"
    by (simp add: eval_defs users_validator_def with_email_def)
  have e: "map_of alice ''email'' = Some (BString ''a@b.com'')"
    by (simp add: alice_def)
  have m: "map_of (with_email x) = (map_of alice)(''email'' \<mapsto> x)" for x
    by (rule ext) (simp add: alice_def with_email_def)
  note t = users_email_constraint [OF v]
  from t e have "pcre_email_shape ''a@b.com''" by auto
  moreover from t 1 m have "pcre_email_shape ''bob@example.org''" by blast
  moreover from t 2 m have "\<not> pcre_email_shape ''bob.example.org''" by blast
  moreover from t m have "\<not> valid users_validator (BObject (with_email (BInt 7)))" by blast
  ultimately show ?thesis using v 1 2 by simp
qed

text \<open>
  The claim as the specification words it asks for less than the pattern does: a line
  feed is a character, and an address with one in its local part has the shape of the
  specification and is rejected, in a document whose other fields are those of an
  accepted one.
\<close>

theorem users_email_newline_counterexample:
  "valid users_validator (BObject (with_email (BString ''a@b.com'')))
   \<and> spec_email_shape ''a\<newline>b@c.d''
   \<and> \<not> valid users_validator (BObject (with_email (BString ''a\<newline>b@c.d'')))"
proof -
  have v: "valid users_validator (BObject (with_email (BString ''a@b.com'')))"
    by (simp add: eval_defs users_validator_def with_email_def)
  have "''a\<newline>b@c.d'' = ''a\<newline>b'' @ ''@'' @ ''c'' @ ''.'' @ ''d''" by simp
  then have s: "spec_email_shape ''a\<newline>b@c.d''"
    unfolding spec_email_shape_def by blast
  have n: "\<not> valid users_validator (BObject (with_email (BString ''a\<newline>b@c.d'')))"
    by (simp add: eval_defs users_validator_def with_email_def)
  show ?thesis using v s n by simp
qed

subsection \<open>The players and moves of a game\<close>

text \<open>
  C6. A document that the \<^verbatim>\<open>games\<close> validator accepts has a \<^verbatim>\<open>players\<close> field that
  is an array of exactly two object identifiers; with fewer or more items, three for
  one, the document is rejected.
\<close>

theorem games_players_exactly_two:
  assumes "valid games_validator (BObject d)"
  shows "\<exists>a b. map_of d ''players'' = Some (BArray [BObjectId a, BObjectId b])"
proof -
  from assms obtain v where v: "map_of d ''players'' = Some v"
    and "valid [BsonType [''array''], Description ''Array of two player IDs'',
           MinItems 2, MaxItems 2, Items [BsonType [''objectId'']]] v"
    by (auto simp: games_validator_def kw_simps simp del: valid_kw.simps(1,3,4,8))
  then obtain xs where xs: "v = BArray xs" and len: "length xs = 2"
    and ids: "\<forall>x \<in> set xs. \<exists>i. x = BObjectId i"
    by (auto simp: kw_simps simp del: valid_kw.simps(1,3,4,8))
  from len obtain x y where "xs = [x, y]"
    by (auto simp: length_Suc_conv numeral_2_eq_2)
  then show ?thesis using v xs ids by auto
qed

theorem games_players_exactly_two_witness:
  "valid games_validator (BObject game1)
   \<and> (\<exists>a b. map_of game1 ''players'' = Some (BArray [BObjectId a, BObjectId b]))
   \<and> \<not> valid games_validator (BObject game_three_players)"
proof -
  have v: "valid games_validator (BObject game1)"
    by (simp add: eval_defs games_validator_def game1_def)
  have "\<not> valid games_validator (BObject game_three_players)"
    using games_players_exactly_two [of game_three_players]
    by (auto simp: game_three_players_def)
  then show ?thesis using v games_players_exactly_two [OF v] by simp
qed

lemma move_item:
  assumes "valid [BsonType [''object''],
             Required [''player'', ''position'', ''timestamp''],
             Properties
              [(''player'', [BsonType [''objectId''], Description ''User ID'']),
               (''position'',
                  [BsonType [''object''],
                   Required [''row'', ''col''],
                   Properties
                    [(''row'', [BsonType [''int''], Minimum 0, Maximum 2]),
                     (''col'', [BsonType [''int''], Minimum 0, Maximum 2])]]),
               (''timestamp'', [BsonType [''date'']])]] m"
  shows "\<exists>md pd r c.
           m = BObject md \<and> map_of md ''position'' = Some (BObject pd)
           \<and> map_of pd ''row'' = Some (BInt r) \<and> map_of pd ''col'' = Some (BInt c)
           \<and> 0 \<le> r \<and> r \<le> 2 \<and> 0 \<le> c \<and> c \<le> 2"
proof -
  from assms obtain md where md: "m = BObject md"
    by (auto simp: kw_simps simp del: valid_kw.simps(1,3,4,8))
  from assms md obtain p where p: "map_of md ''position'' = Some p"
    and vp: "valid [BsonType [''object''],
                   Required [''row'', ''col''],
                   Properties
                    [(''row'', [BsonType [''int''], Minimum 0, Maximum 2]),
                     (''col'', [BsonType [''int''], Minimum 0, Maximum 2])]] p"
    by (auto simp: kw_simps simp del: valid_kw.simps(1,3,4,8))
  from vp obtain pd where pd: "p = BObject pd"
    by (auto simp: kw_simps simp del: valid_kw.simps(1,3,4,8))
  from vp pd obtain rv cv where rv: "map_of pd ''row'' = Some rv"
    and cv: "map_of pd ''col'' = Some cv"
    and vr: "valid [BsonType [''int''], Minimum 0, Maximum 2] rv"
    and vc: "valid [BsonType [''int''], Minimum 0, Maximum 2] cv"
    by (auto simp: kw_simps simp del: valid_kw.simps(1,3,4,8))
  from vr obtain r where r: "rv = BInt r" "0 \<le> r" "r \<le> 2"
    by (auto simp: kw_simps simp del: valid_kw.simps(1,3,4,8))
  from vc obtain c where c: "cv = BInt c" "0 \<le> c" "c \<le> 2"
    by (auto simp: kw_simps simp del: valid_kw.simps(1,3,4,8))
  show ?thesis using md p pd rv cv r c by simp
qed

text \<open>
  C7. In a document that the \<^verbatim>\<open>games\<close> validator accepts, every element of
  \<^verbatim>\<open>moves\<close> has a \<^verbatim>\<open>position\<close> whose \<^verbatim>\<open>row\<close> and \<^verbatim>\<open>col\<close> are 32-bit integers between
  0 and 2; a move with a row or column outside that range, or of another type, makes
  the validator reject the document.
\<close>

theorem games_move_positions_in_range:
  assumes "valid games_validator (BObject d)"
  shows "\<exists>ms. map_of d ''moves'' = Some (BArray ms)
           \<and> (\<forall>m \<in> set ms. \<exists>md pd r c.
                 m = BObject md \<and> map_of md ''position'' = Some (BObject pd)
                 \<and> map_of pd ''row'' = Some (BInt r) \<and> map_of pd ''col'' = Some (BInt c)
                 \<and> 0 \<le> r \<and> r \<le> 2 \<and> 0 \<le> c \<and> c \<le> 2)"
proof -
  from assms obtain v where v: "map_of d ''moves'' = Some v"
    by (auto simp: games_validator_def kw_simps simp del: valid_kw.simps(1,3,4,8))
  from assms v obtain ms where ms: "v = BArray ms"
    by (auto simp: games_validator_def kw_simps simp del: valid_kw.simps(1,3,4,8))
  have "\<forall>m \<in> set ms. valid [BsonType [''object''],
             Required [''player'', ''position'', ''timestamp''],
             Properties
              [(''player'', [BsonType [''objectId''], Description ''User ID'']),
               (''position'',
                  [BsonType [''object''],
                   Required [''row'', ''col''],
                   Properties
                    [(''row'', [BsonType [''int''], Minimum 0, Maximum 2]),
                     (''col'', [BsonType [''int''], Minimum 0, Maximum 2])]]),
               (''timestamp'', [BsonType [''date'']])]] m"
    using assms v ms
    by (simp add: games_validator_def valid_Cons kw_properties kw_items
          del: valid_kw.simps(1,3,4,8))
  then show ?thesis using v ms move_item by blast
qed

theorem games_move_positions_in_range_witness:
  "valid games_validator (BObject game1)
   \<and> (\<exists>ms. map_of game1 ''moves'' = Some (BArray ms)
           \<and> (\<forall>m \<in> set ms. \<exists>md pd r c.
                 m = BObject md \<and> map_of md ''position'' = Some (BObject pd)
                 \<and> map_of pd ''row'' = Some (BInt r) \<and> map_of pd ''col'' = Some (BInt c)
                 \<and> 0 \<le> r \<and> r \<le> 2 \<and> 0 \<le> c \<and> c \<le> 2))
   \<and> \<not> valid games_validator (BObject game_row_three)"
proof -
  have v: "valid games_validator (BObject game1)"
    by (simp add: eval_defs games_validator_def game1_def)
  have "\<not> valid games_validator (BObject game_row_three)"
    using games_move_positions_in_range [of game_row_three]
    by (auto simp: game_row_three_def)
  then show ?thesis using v games_move_positions_in_range [OF v] by simp
qed

subsection \<open>The win rate of a leaderboard entry\<close>

text \<open>
  C8. A document that the \<^verbatim>\<open>leaderboards\<close> validator accepts has a \<^verbatim>\<open>win_rate\<close> of
  type double, between 0 and 1. A win rate stored as an integer is rejected, also when
  its value is 0 or 1.
\<close>

theorem leaderboards_win_rate_double:
  assumes "valid leaderboards_validator (BObject d)"
  shows "\<exists>x. map_of d ''win_rate'' = Some (BDouble x) \<and> 0 \<le> x \<and> x \<le> 1"
proof -
  from assms obtain v where v: "map_of d ''win_rate'' = Some v"
    and "valid [BsonType [''double''], Minimum 0, Maximum 1] v"
    by (auto simp: leaderboards_validator_def kw_simps simp del: valid_kw.simps(1,3,4,8))
  then show ?thesis
    by (auto simp: kw_simps simp del: valid_kw.simps(1,3,4,8))
qed

theorem leaderboards_win_rate_double_witness:
  "valid leaderboards_validator (BObject entry1)
   \<and> (\<exists>x. map_of entry1 ''win_rate'' = Some (BDouble x) \<and> 0 \<le> x \<and> x \<le> 1)
   \<and> \<not> valid leaderboards_validator (BObject entry_int_rate)"
proof -
  have v: "valid leaderboards_validator (BObject entry1)"
    by (simp add: eval_defs leaderboards_validator_def entry1_def)
  have "\<not> valid leaderboards_validator (BObject entry_int_rate)"
    using leaderboards_win_rate_double [of entry_int_rate]
    by (auto simp: entry_int_rate_def)
  then show ?thesis using v leaderboards_win_rate_double [OF v] by simp
qed

subsection \<open>Fields the validators do not name\<close>

text \<open>
  A keyword other than \<^verbatim>\<open>enum\<close> looks at an object only through the fields it names.
\<close>

lemma valid_kw_agree:
  assumes "\<forall>n \<in> set (kw_names k). map_of d' n = map_of d n" and "\<forall>vs. k \<noteq> Enum vs"
  shows "valid_kw k (BObject d') = valid_kw k (BObject d)"
proof (cases k)
  case (Required rs)
  then show ?thesis using assms by (simp add: list_all_iff)
next
  case (Properties ps)
  have "list_all (\<lambda>(n, S). case map_of d' n of None \<Rightarrow> True
                                | Some x \<Rightarrow> list_all (\<lambda>k. valid_kw k x) S) ps
      = list_all (\<lambda>(n, S). case map_of d n of None \<Rightarrow> True
                                | Some x \<Rightarrow> list_all (\<lambda>k. valid_kw k x) S) ps"
    using assms Properties by (intro list.pred_cong) auto
  then show ?thesis using Properties by simp
qed (use assms in \<open>simp_all add: type_matches_def list_ex_iff\<close>)

lemma valid_agree:
  assumes "\<forall>n \<in> set (named_fields S). map_of d' n = map_of d n"
    and "\<forall>vs. Enum vs \<notin> set S"
  shows "valid S (BObject d') = valid S (BObject d)"
proof -
  have "\<forall>k \<in> set S. valid_kw k (BObject d') = valid_kw k (BObject d)"
  proof
    fix k assume k: "k \<in> set S"
    then have "\<forall>n \<in> set (kw_names k). map_of d' n = map_of d n"
      using assms(1) by (auto simp: named_fields_def)
    moreover have "\<forall>vs. k \<noteq> Enum vs" using k assms(2) by auto
    ultimately show "valid_kw k (BObject d') = valid_kw k (BObject d)"
      by (rule valid_kw_agree)
  qed
  then show ?thesis by (simp add: valid_def list_all_iff)
qed

lemma map_of_extra:
  assumes "n \<notin> set (map fst extra)"
  shows "map_of (d @ extra) n = map_of d n" and "map_of (extra @ d) n = map_of d n"
proof -
  have "map_of extra n = None" using assms by (simp add: map_of_eq_None_iff)
  then show "map_of (d @ extra) n = map_of d n" and "map_of (extra @ d) n = map_of d n"
    by (simp_all add: map_add_def split: option.splits)
qed

lemma no_top_enum:
  "Enum vs \<notin> set users_validator" "Enum vs \<notin> set games_validator"
  "Enum vs \<notin> set leaderboards_validator"
  by (simp_all add: users_validator_def games_validator_def leaderboards_validator_def)

text \<open>
  C9. For each of the three validators: a document it accepts is still accepted when
  further top-level fields are added, before or after the others, under names the
  validator does not mention.
\<close>

theorem validators_allow_extra_fields:
  assumes "S \<in> {users_validator, games_validator, leaderboards_validator}"
    and "valid S (BObject d)"
    and "set (map fst extra) \<inter> set (named_fields S) = {}"
  shows "valid S (BObject (d @ extra)) \<and> valid S (BObject (extra @ d))"
proof -
  have enum: "\<forall>vs. Enum vs \<notin> set S"
    using assms(1) no_top_enum by blast
  have out: "\<forall>n \<in> set (named_fields S). n \<notin> set (map fst extra)"
    using assms(3) by blast
  have "map_of (d @ extra) n = map_of d n" if "n \<in> set (named_fields S)" for n
    using that out by (intro map_of_extra(1)) simp
  then have "\<forall>n \<in> set (named_fields S). map_of (d @ extra) n = map_of d n"
    by simp
  then have 1: "valid S (BObject (d @ extra)) = valid S (BObject d)"
    using enum by (rule valid_agree)
  have "map_of (extra @ d) n = map_of d n" if "n \<in> set (named_fields S)" for n
    using that out by (intro map_of_extra(2)) simp
  then have "\<forall>n \<in> set (named_fields S). map_of (extra @ d) n = map_of d n"
    by simp
  then have 2: "valid S (BObject (extra @ d)) = valid S (BObject d)"
    using enum by (rule valid_agree)
  show ?thesis using 1 2 assms(2) by simp
qed

theorem validators_allow_extra_fields_witness:
  "users_validator \<in> {users_validator, games_validator, leaderboards_validator}
   \<and> valid users_validator (BObject alice)
   \<and> set (map fst [(''nickname'', BString ''al''), (''created_at_ms'', BLong 5)])
        \<inter> set (named_fields users_validator) = {}
   \<and> valid users_validator
        (BObject (alice @ [(''nickname'', BString ''al''), (''created_at_ms'', BLong 5)]))
   \<and> valid users_validator
        (BObject ([(''nickname'', BString ''al''), (''created_at_ms'', BLong 5)] @ alice))
   \<and> valid games_validator (BObject (game1 @ [(''board'', BArray [BNull, BInt 7])]))
   \<and> valid leaderboards_validator (BObject ((''streak'', BString ''x'') # entry1))"
proof -
  have m: "users_validator \<in> {users_validator, games_validator, leaderboards_validator}"
    by simp
  have v: "valid users_validator (BObject alice)"
    by (simp add: eval_defs users_validator_def alice_def)
  have x: "set (map fst [(''nickname'', BString ''al''), (''created_at_ms'', BLong 5)])
        \<inter> set (named_fields users_validator) = {}"
    by (simp add: named_fields_def users_validator_def)
  have mg: "games_validator \<in> {users_validator, games_validator, leaderboards_validator}"
    by simp
  have vg: "valid games_validator (BObject game1)"
    by (simp add: eval_defs games_validator_def game1_def)
  have xg: "set (map fst [(''board'', BArray [BNull, BInt 7])])
        \<inter> set (named_fields games_validator) = {}"
    by (simp add: named_fields_def games_validator_def)
  have ml: "leaderboards_validator
        \<in> {users_validator, games_validator, leaderboards_validator}"
    by simp
  have vl: "valid leaderboards_validator (BObject entry1)"
    by (simp add: eval_defs leaderboards_validator_def entry1_def)
  have xl: "set (map fst [(''streak'', BString ''x'')])
        \<inter> set (named_fields leaderboards_validator) = {}"
    by (simp add: named_fields_def leaderboards_validator_def)
  show ?thesis
    using m v x validators_allow_extra_fields [OF m v x]
      validators_allow_extra_fields [OF mg vg xg]
      validators_allow_extra_fields [OF ml vl xl]
    by simp
qed

section \<open>The initializer on the create-if-absent database\<close>

lemmas mongo_defs = mongo_def mongo_createCollection_def mongo_createIndex_def

lemma run_empty: "run_steps mongo schema_steps Map.empty = (initialized_db, schema_steps, None)"
  by (simp add: schema_steps_def mongo_defs initialized_db_def)

lemma run_initialized:
  "run_steps mongo schema_steps initialized_db = (initialized_db, schema_steps, None)"
  by (simp add: schema_steps_def mongo_defs initialized_db_def)

lemma init_final: "final (initializeSchema mongo Map.empty) = initialized_db"
  by (simp add: initializeSchema_def run_empty)

lemma init_calls: "calls (initializeSchema mongo Map.empty) = schema_steps"
  by (simp add: initializeSchema_def run_empty)

text \<open>
  C1. On the empty database the initializer succeeds and leaves the three collections
  with their validators and indexes; run again on the state it left, it succeeds again,
  issues the same calls, prints the same line and leaves that state as it is.
\<close>

theorem initializeSchema_twice_on_empty:
  "rejected (initializeSchema mongo Map.empty) = None
   \<and> final (initializeSchema mongo Map.empty) = initialized_db
   \<and> initializeSchema mongo (final (initializeSchema mongo Map.empty))
       = initializeSchema mongo Map.empty"
  by (simp add: initializeSchema_def run_empty run_initialized)

text \<open>
  The same holds from any state in which the first run succeeds: every call that
  resolved is satisfied afterwards, later calls keep it satisfied, and a satisfied call
  resolves without a change.
\<close>

lemma exec_establishes:
  "exec_step mongo st db = Inr db' \<Longrightarrow> satisfied st db'"
  by (cases st) (auto simp: mongo_defs Let_def split: option.splits if_splits)

lemma exec_satisfied:
  "satisfied st db \<Longrightarrow> exec_step mongo st db = Inr db"
  by (cases st) (auto simp: mongo_defs Let_def split: option.splits)

lemma exec_preserves:
  "satisfied st db \<Longrightarrow> exec_step mongo st' db = Inr db' \<Longrightarrow> satisfied st db'"
  by (cases st; cases st')
     (auto simp: mongo_defs Let_def split: option.splits if_splits)

lemma run_preserves:
  "satisfied st db \<Longrightarrow> run_steps mongo xs db = (db', tr, None) \<Longrightarrow> satisfied st db'"
proof (induction xs arbitrary: db tr)
  case Nil
  then show ?case by simp
next
  case (Cons x xs)
  then show ?case
    by (auto split: sum.splits prod.splits dest: exec_preserves)
qed

lemma run_establishes:
  "run_steps mongo xs db = (db', tr, None) \<Longrightarrow> \<forall>st \<in> set xs. satisfied st db'"
proof (induction xs arbitrary: db tr)
  case Nil
  then show ?case by simp
next
  case (Cons x xs)
  then show ?case
    by (auto split: sum.splits prod.splits dest: exec_establishes run_preserves)
qed

lemma run_satisfied:
  "\<forall>st \<in> set xs. satisfied st db \<Longrightarrow> run_steps mongo xs db = (db, xs, None)"
  by (induction xs) (auto simp: exec_satisfied)

lemma initializeSchema_rerun:
  assumes "rejected (initializeSchema mongo db) = None"
  shows "initializeSchema mongo (final (initializeSchema mongo db)) = initializeSchema mongo db"
proof (cases "run_steps mongo schema_steps db")
  case (fields db' tr r)
  with assms have r: "r = None" by (cases r) (simp_all add: initializeSchema_def)
  with fields have tr: "tr = schema_steps" by (simp add: run_steps_success_calls)
  from fields r have "\<forall>st \<in> set schema_steps. satisfied st db'"
    using run_establishes by blast
  then have "run_steps mongo schema_steps db' = (db', schema_steps, None)"
    by (rule run_satisfied)
  then show ?thesis using fields r tr by (simp add: initializeSchema_def)
qed

subsection \<open>Indexes\<close>

text \<open>
  C5. A run of the initializer that succeeds, on any handle, has issued exactly two
  index creations for \<^verbatim>\<open>games\<close>: one on \<^verbatim>\<open>players\<close>, one on \<^verbatim>\<open>status\<close> ascending
  with \<^verbatim>\<open>created_at\<close> descending, neither of them unique.
\<close>

theorem games_indexes:
  assumes "rejected (initializeSchema h s) = None"
  shows "[st \<leftarrow> calls (initializeSchema h s). step_target st = ''games'' \<and> is_index st]
           = [CreateIndex ''games'' [(''players'', 1)] False,
              CreateIndex ''games'' [(''status'', 1), (''created_at'', - 1)] False]"
  unfolding success_calls [OF assms] by (simp add: schema_steps_def)

theorem games_indexes_witness:
  "rejected (initializeSchema mongo Map.empty) = None
   \<and> [st \<leftarrow> calls (initializeSchema mongo Map.empty). step_target st = ''games'' \<and> is_index st]
           = [CreateIndex ''games'' [(''players'', 1)] False,
              CreateIndex ''games'' [(''status'', 1), (''created_at'', - 1)] False]
   \<and> map_option coll_indexes (final (initializeSchema mongo Map.empty) ''games'')
           = Some [\<lparr>ix_keys = [(''players'', 1)], ix_unique = False\<rparr>,
                   \<lparr>ix_keys = [(''status'', 1), (''created_at'', - 1)], ix_unique = False\<rparr>]"
proof -
  have ok: "rejected (initializeSchema mongo Map.empty) = None"
    by (simp add: initializeSchema_def run_empty)
  have db: "map_option coll_indexes (final (initializeSchema mongo Map.empty) ''games'')
           = Some [\<lparr>ix_keys = [(''players'', 1)], ix_unique = False\<rparr>,
                   \<lparr>ix_keys = [(''status'', 1), (''created_at'', - 1)], ix_unique = False\<rparr>]"
    by (simp add: initializeSchema_def run_empty initialized_db_def)
  show ?thesis using ok db games_indexes [OF ok] by simp
qed

lemma insert_all_Cons: "insert_all ((n, d) # xs) db = insert_all xs (attempt n d db)"
  by (simp add: attempt_def)

lemma index_key_single: "index_key [(f, dir)] d = [field_value d f]"
  by (simp add: index_key_def)

lemma attempt_keeps_unique:
  assumes c: "db n = Some c"
    and ix: "\<lparr>ix_keys = [(f, dir)], ix_unique = True\<rparr> \<in> set (coll_indexes c)"
    and dist: "distinct (map (\<lambda>d. field_value d f) (coll_documents c))"
  shows "\<exists>c'. attempt n' d db n = Some c' \<and> coll_indexes c' = coll_indexes c
            \<and> distinct (map (\<lambda>d. field_value d f) (coll_documents c'))"
proof (cases "mongo_insert n' d db")
  case (Inl e)
  then show ?thesis using c dist by (simp add: attempt_def)
next
  case (Inr db')
  show ?thesis
  proof (cases "n' = n")
    case False
    then have "db' n = db n"
      using Inr by (auto simp: mongo_insert_def split: option.splits if_splits)
    then show ?thesis using Inr c dist by (simp add: attempt_def)
  next
    case True
    from Inr True c have free: "\<not> list_ex (key_taken (coll_documents c) d) (coll_indexes c)"
      and db': "db' = db(n \<mapsto> c\<lparr>coll_documents := coll_documents c @ [d]\<rparr>)"
      by (auto simp: mongo_insert_def split: if_splits)
    from free ix have "\<not> key_taken (coll_documents c) d \<lparr>ix_keys = [(f, dir)], ix_unique = True\<rparr>"
      by (auto simp: list_ex_iff)
    then have "field_value d f \<notin> set (map (\<lambda>d. field_value d f) (coll_documents c))"
      by (auto simp: key_taken_def index_key_single)
    then show ?thesis using Inr db' dist by (simp add: attempt_def)
  qed
qed

lemma insert_all_keeps_unique:
  assumes "db n = Some c"
    and "\<lparr>ix_keys = [(f, dir)], ix_unique = True\<rparr> \<in> set (coll_indexes c)"
    and "distinct (map (\<lambda>d. field_value d f) (coll_documents c))"
  shows "\<exists>c'. insert_all ops db n = Some c' \<and> coll_indexes c' = coll_indexes c
            \<and> distinct (map (\<lambda>d. field_value d f) (coll_documents c'))"
  using assms
proof (induction ops arbitrary: db c)
  case Nil
  then show ?case by simp
next
  case (Cons op ops)
  obtain n' d where op: "op = (n', d)" by (cases op)
  from attempt_keeps_unique [where db = db and n = n and n' = n' and d = d, OF Cons.prems]
  obtain c' where c': "attempt n' d db n = Some c'" and i: "coll_indexes c' = coll_indexes c"
    and dist: "distinct (map (\<lambda>d. field_value d f) (coll_documents c'))"
    by blast
  from Cons.prems(2) i have "\<lparr>ix_keys = [(f, dir)], ix_unique = True\<rparr> \<in> set (coll_indexes c')"
    by simp
  from Cons.IH [of "attempt n' d db" c', OF c' this dist] i show ?case
    unfolding op insert_all_Cons by auto
qed

lemma shared_value_rejected:
  assumes "db n = Some c"
    and "\<lparr>ix_keys = [(f, dir)], ix_unique = True\<rparr> \<in> set (coll_indexes c)"
    and "field_value d f \<in> set (map (\<lambda>d'. field_value d' f) (coll_documents c))"
  shows "isl (mongo_insert n d db)"
proof -
  have "key_taken (coll_documents c) d \<lparr>ix_keys = [(f, dir)], ix_unique = True\<rparr>"
    using assms(3) by (auto simp: key_taken_def index_key_single)
  then have "list_ex (key_taken (coll_documents c) d) (coll_indexes c)"
    using assms(2) by (auto simp: list_ex_iff)
  then show ?thesis using assms(1) by (simp add: mongo_insert_def)
qed

lemma reachable_unique:
  assumes "initialized_db n = Some c"
    and "\<lparr>ix_keys = [(f, dir)], ix_unique = True\<rparr> \<in> set (coll_indexes c)"
    and "coll_documents c = []"
  shows "values_differ (insert_all ops initialized_db) n f"
    and "value_stored (insert_all ops initialized_db) n f d
           \<Longrightarrow> isl (mongo_insert n d (insert_all ops initialized_db))"
proof -
  from assms(3) have "distinct (map (\<lambda>d. field_value d f) (coll_documents c))" by simp
  from insert_all_keeps_unique [where db = initialized_db and n = n and ops = ops, OF assms(1,2) this]
  obtain c' where c': "insert_all ops initialized_db n = Some c'"
    and i: "coll_indexes c' = coll_indexes c"
    and dist: "distinct (map (\<lambda>d. field_value d f) (coll_documents c'))"
    by blast
  show "values_differ (insert_all ops initialized_db) n f"
    using c' dist by (simp add: values_differ_def)
  assume "value_stored (insert_all ops initialized_db) n f d"
  then have "field_value d f \<in> set (map (\<lambda>d'. field_value d' f) (coll_documents c'))"
    using c' by (simp add: value_stored_def)
  moreover have "\<lparr>ix_keys = [(f, dir)], ix_unique = True\<rparr> \<in> set (coll_indexes c')"
    using assms(2) i by simp
  ultimately show "isl (mongo_insert n d (insert_all ops initialized_db))"
    using c' shared_value_rejected by blast
qed

lemma unique_fields_indexed:
  assumes "(n, f) \<in> set unique_fields"
  shows "\<exists>c. initialized_db n = Some c
           \<and> \<lparr>ix_keys = [(f, 1)], ix_unique = True\<rparr> \<in> set (coll_indexes c)
           \<and> coll_documents c = []"
  using assms by (auto simp: unique_fields_def initialized_db_def)

text \<open>
  C4. The unique indexes the initializer creates are the four on \<^verbatim>\<open>users.username\<close>,
  \<^verbatim>\<open>users.email\<close>, \<^verbatim>\<open>leaderboards.ranking\<close> and \<^verbatim>\<open>leaderboards.user_id\<close>. After any
  sequence of insert attempts on the initialized database, the stored documents of the
  collection differ pairwise in each of these fields, and an insert of a document that
  shares such a value with a stored one is rejected.
\<close>

theorem unique_indexes:
  "[st \<leftarrow> calls (initializeSchema mongo Map.empty). is_unique_index st]
      = [CreateIndex ''users'' [(''username'', 1)] True,
         CreateIndex ''users'' [(''email'', 1)] True,
         CreateIndex ''leaderboards'' [(''ranking'', 1)] True,
         CreateIndex ''leaderboards'' [(''user_id'', 1)] True]
   \<and> (\<forall>(n, f) \<in> set unique_fields.
         values_differ (insert_all ops (final (initializeSchema mongo Map.empty))) n f
         \<and> (value_stored (insert_all ops (final (initializeSchema mongo Map.empty))) n f d
             \<longrightarrow> isl (mongo_insert n d (insert_all ops (final (initializeSchema mongo Map.empty))))))"
proof
  show "[st \<leftarrow> calls (initializeSchema mongo Map.empty). is_unique_index st]
      = [CreateIndex ''users'' [(''username'', 1)] True,
         CreateIndex ''users'' [(''email'', 1)] True,
         CreateIndex ''leaderboards'' [(''ranking'', 1)] True,
         CreateIndex ''leaderboards'' [(''user_id'', 1)] True]"
    unfolding init_calls by (simp add: schema_steps_def)
next
  show "\<forall>(n, f) \<in> set unique_fields.
         values_differ (insert_all ops (final (initializeSchema mongo Map.empty))) n f
         \<and> (value_stored (insert_all ops (final (initializeSchema mongo Map.empty))) n f d
             \<longrightarrow> isl (mongo_insert n d (insert_all ops (final (initializeSchema mongo Map.empty)))))"
    unfolding init_final
  proof (intro ballI, clarify)
    fix n f assume "(n, f) \<in> set unique_fields"
    then obtain c where c: "initialized_db n = Some c"
      "\<lparr>ix_keys = [(f, 1)], ix_unique = True\<rparr> \<in> set (coll_indexes c)" "coll_documents c = []"
      using unique_fields_indexed by blast
    have 1: "values_differ (insert_all ops initialized_db) n f"
      by (rule reachable_unique(1) [where n = n, OF c])
    have 2: "value_stored (insert_all ops initialized_db) n f d
             \<longrightarrow> isl (mongo_insert n d (insert_all ops initialized_db))"
      using reachable_unique(2) [where n = n and ops = ops and d = d, OF c] by blast
    from 1 2
    show "values_differ (insert_all ops initialized_db) n f
         \<and> (value_stored (insert_all ops initialized_db) n f d
             \<longrightarrow> isl (mongo_insert n d (insert_all ops initialized_db)))"
      by blast
  qed
qed

lemma two_inserts:
  "map_option coll_documents
     (insert_all [(''users'', alice), (''users'', bob_same_email)] initialized_db ''users'')
     = Some [alice]"
  by (simp add: initialized_db_def mongo_insert_def key_taken_def index_key_def field_value_def
      alice_def bob_same_email_def eval_defs users_validator_def)

theorem unique_indexes_witness:
  "map_option coll_documents
     (insert_all [(''users'', alice), (''users'', bob_same_email)]
        (final (initializeSchema mongo Map.empty)) ''users'') = Some [alice]
   \<and> values_differ (insert_all [(''users'', alice), (''users'', bob_same_email)]
        (final (initializeSchema mongo Map.empty))) ''users'' ''email''
   \<and> value_stored (insert_all [(''users'', alice), (''users'', bob_same_email)]
        (final (initializeSchema mongo Map.empty))) ''users'' ''username'' alice_again
   \<and> isl (mongo_insert ''users'' alice_again
        (insert_all [(''users'', alice), (''users'', bob_same_email)]
           (final (initializeSchema mongo Map.empty))))"
proof -
  let ?db = "insert_all [(''users'', alice), (''users'', bob_same_email)]
        (final (initializeSchema mongo Map.empty))"
  have docs: "map_option coll_documents (?db ''users'') = Some [alice]"
    unfolding init_final by (rule two_inserts)
  then have stored: "value_stored ?db ''users'' ''username'' alice_again"
    by (auto simp: value_stored_def field_value_def alice_def alice_again_def
        split: option.splits)
  have 1: "(''users'', ''username'') \<in> set unique_fields"
    and 2: "(''users'', ''email'') \<in> set unique_fields"
    by (simp_all add: unique_fields_def)
  from unique_indexes [of "[(''users'', alice), (''users'', bob_same_email)]" alice_again]
  have all: "\<forall>(n, f) \<in> set unique_fields.
         values_differ ?db n f \<and> (value_stored ?db n f alice_again
             \<longrightarrow> isl (mongo_insert n alice_again ?db))"
    by blast
  from all 1 stored have "isl (mongo_insert ''users'' alice_again ?db)" by blast
  moreover from all 2 have "values_differ ?db ''users'' ''email''" by blast
  ultimately show ?thesis using docs stored by simp
qed

end
